theory Spec2Isabelle
  imports Complex_Main
begin

section \<open>Numbers and library errors\<close>

text \<open>
  The dashboard's numbers are counts and sums held in pandas/numpy containers. They are
  modelled as exact rationals: the formulas of the source are kept, IEEE rounding of the
  individual operations is not modelled.

  The source raises no exception of its own; every failure is an exception of a library
  call (pandas, numpy, matplotlib, seaborn). Each such raise is a value of \<open>error\<close>.
\<close>

datatype error = KeyError | ValueError | IndexError | TypeError | ZeroDivisionError


section \<open>numpy operations used by the tick heuristic\<close>

text \<open>\<open>ndarray.max()\<close>: the maximum of the values; a zero-size array raises \<open>ValueError\<close>.\<close>

definition np_max :: "rat list \<Rightarrow> error + rat" where
  "np_max vs = (case vs of [] \<Rightarrow> Inl ValueError | v # ws \<Rightarrow> Inr (fold max ws v))"








section \<open>The tick heuristic: \<open>get_tick_range_and_spacing\<close>\<close>



section \<open>Data frames, series and the object store\<close>

text \<open>
  A pandas \<open>DataFrame\<close> as the plotting code uses it: the index holds the x values, each
  column is one category, in column order. A \<open>Series\<close> is the list of its values. Both are
  objects that the caller passes by reference, so they live in a store and the functions
  below receive addresses. A new object is allocated at the next free address.
\<close>

record dataframe =
  df_index :: "rat list"
  df_columns :: "(string \<times> rat list) list"

datatype obj = DataFrame dataframe | Series "rat list"

type_synonym ref = nat

type_synonym store = "obj list"

definition lookup :: "store \<Rightarrow> ref \<Rightarrow> obj option" where
  "lookup h r = (if r < length h then Some (h ! r) else None)"

definition alloc :: "store \<Rightarrow> obj \<Rightarrow> store \<times> ref" where
  "alloc h ob = (h @ [ob], length h)"

text \<open>\<open>Series.cumsum()\<close>: the running sums, in a new series.\<close>

fun cumsum_from :: "rat \<Rightarrow> rat list \<Rightarrow> rat list" where
  "cumsum_from acc [] = []"
| "cumsum_from acc (v # vs) = (acc + v) # cumsum_from (acc + v) vs"

definition cumsum :: "rat list \<Rightarrow> rat list" where
  "cumsum vs = cumsum_from 0 vs"

text \<open>\<open>DataFrame.cumsum(axis='rows')\<close>: every column replaced by its running sums down the
  index, in a new frame with the same index and column names.\<close>

definition df_cumsum :: "dataframe \<Rightarrow> dataframe" where
  "df_cumsum df = df\<lparr>df_columns := map (\<lambda>(c, vs). (c, cumsum vs)) (df_columns df)\<rparr>"

text \<open>\<open>df[c]\<close> for one label: the column, or \<open>KeyError\<close>.\<close>

definition df_getitem :: "dataframe \<Rightarrow> string \<Rightarrow> error + rat list" where
  "df_getitem df c = (case map_of (df_columns df) c of None \<Rightarrow> Inl KeyError | Some vs \<Rightarrow> Inr vs)"

text \<open>\<open>df[columns]\<close> for a list of labels: the frame of those columns in the order asked,
  or \<open>KeyError\<close> when a label is not a column.\<close>

fun df_getitems :: "dataframe \<Rightarrow> string list \<Rightarrow> error + (string \<times> rat list) list" where
  "df_getitems df [] = Inr []"
| "df_getitems df (c # cs) =
     (case df_getitem df c of
        Inl e \<Rightarrow> Inl e
      | Inr vs \<Rightarrow> (case df_getitems df cs of Inl e \<Rightarrow> Inl e | Inr rest \<Rightarrow> Inr ((c, vs) # rest)))"

definition df_select :: "dataframe \<Rightarrow> string list \<Rightarrow> error + dataframe" where
  "df_select df cs =
     (case df_getitems df cs of Inl e \<Rightarrow> Inl e | Inr cols \<Rightarrow> Inr (df\<lparr>df_columns := cols\<rparr>))"

section \<open>Figures\<close>

type_synonym color = string

text \<open>
  What the plotting calls put on the axes: \<open>ax.plot\<close> a line, \<open>ax.scatter\<close> labelled
  markers, \<open>ax.annotate\<close> a text at the right edge. The fields are the arguments the
  source passes.
\<close>

datatype artist =
    Line (a_xs: "rat list") (a_ys: "rat list") (a_linewidth: rat) (a_alpha: rat)
      (a_zorder: nat) (a_color: color)
  | Markers (a_xs: "rat list") (a_ys: "rat list") (a_label: string)
      (a_zorder: nat) (a_color: color) (a_size: rat)
  | Annotation (a_label: string) (a_y: rat) (a_xoffset: rat) (a_ha: string)

record legend =
  bbox_to_anchor :: "rat \<times> rat"
  loc :: string
  framealpha :: rat
  fontsize :: rat
  ncol :: nat
  legend_columns :: "string list list"

record figure =
  figsize :: "rat \<times> rat"
  artists :: "artist list"
  ax_yscale :: string
  ax_xlim :: "(rat \<times> rat) option"
  ax_ylim :: "(rat \<times> rat) option"
  ax_xticks :: "rat list"
  ax_yticks :: "rat list option"
  ax_legend :: "legend option"
  ax_xlabel :: "(string \<times> rat) option"
  ax_ylabel :: "(string \<times> rat) option"
  tick_labelsize :: rat

datatype display = ShowFigure figure | ShowFrame dataframe | ShowText string

text \<open>
  The state of the process that the viewer touches: the object store, the current
  matplotlib colour cycle (\<open>rcParams['axes.prop_cycle']\<close>), and what \<open>st.write\<close> has put on
  the page, in order.
\<close>

record world =
  heap :: store
  color_cycle :: "color list"
  shown :: "display list"

text \<open>
  What the libraries supply and the source does not fix: the automatic axis limits that
  \<open>ax.get_xlim()\<close> and \<open>ax.get_ylim()\<close> report for the drawn artists, the scale names
  \<open>ax.set_yscale\<close> accepts, and the font sizes of seaborn's \<open>notebook\<close> plotting context.
\<close>

record mpl =
  auto_xlim :: "artist list \<Rightarrow> rat \<times> rat"
  auto_ylim :: "string \<Rightarrow> artist list \<Rightarrow> rat \<times> rat"
  scale_names :: "string list"
  legend_fontsize :: rat
  axes_labelsize :: rat
  xtick_labelsize :: rat

text \<open>
  \<open>sns.color_palette()\<close> without arguments returns the current matplotlib colour cycle.
  \<open>sns.set(style=...)\<close> is \<open>set_theme\<close> with its default \<open>palette="deep"\<close>: it checks the
  style name and then installs the palette \<open>deep\<close> as the colour cycle of the process.
  A fresh process has matplotlib's own default cycle.
\<close>

definition seaborn_deep :: "color list" where
  "seaborn_deep = [''#4c72b0'', ''#dd8452'', ''#55a868'', ''#c44e52'', ''#8172b3'',
                   ''#937860'', ''#da8bc3'', ''#8c8c8c'', ''#ccb974'', ''#64b5cd'']"

definition mpl_default_cycle :: "color list" where
  "mpl_default_cycle = [''#1f77b4'', ''#ff7f0e'', ''#2ca02c'', ''#d62728'', ''#9467bd'',
                        ''#8c564b'', ''#e377c2'', ''#7f7f7f'', ''#bcbd22'', ''#17becf'']"

definition seaborn_styles :: "string list" where
  "seaborn_styles = [''darkgrid'', ''whitegrid'', ''dark'', ''white'', ''ticks'']"

definition sns_color_palette :: "world \<Rightarrow> color list" where
  "sns_color_palette w = color_cycle w"

definition sns_set :: "string \<Rightarrow> world \<Rightarrow> error + world" where
  "sns_set style w =
     (if style \<in> set seaborn_styles then Inr (w\<lparr>color_cycle := seaborn_deep\<rparr>)
      else Inl ValueError)"

text \<open>\<open>Index.astype(int)\<close> on numbers: truncation towards zero.\<close>

definition astype_int :: "rat \<Rightarrow> int" where
  "astype_int x = (if 0 \<le> x then \<lfloor>x\<rfloor> else \<lceil>x\<rceil>)"

text \<open>
  \<open>np.arange(start, stop, step)\<close>: the values \<open>start + i * step\<close> for
  \<open>0 \<le> i < ceil((stop - start) / step)\<close>, so \<open>stop\<close> itself is never among them. A zero
  step is an error (numpy reports it as a division by zero or as an overflow of the
  length, depending on the number types; the model has one error for it).
\<close>

definition np_arange :: "rat \<Rightarrow> rat \<Rightarrow> rat \<Rightarrow> error + rat list" where
  "np_arange start stop step =
     (if step = 0 then Inl ZeroDivisionError
      else Inr (map (\<lambda>i. start + of_nat i * step) [0 ..< nat \<lceil>(stop - start) / step\<rceil>]))"

text \<open>
  The legend of matplotlib: one entry for each labelled artist whose label is not empty
  and does not start with an underscore, laid out in \<open>ncol\<close> columns. The entries are
  split as \<open>np.array_split\<close> does, the first \<open>n mod ncol\<close> columns getting one entry more, and
  empty columns are dropped.
\<close>

fun legend_labels :: "artist list \<Rightarrow> string list" where
  "legend_labels [] = []"
| "legend_labels (Markers xs ys l z c s # as) =
     (if l \<noteq> [] \<and> hd l \<noteq> CHR ''_'' then l # legend_labels as else legend_labels as)"
| "legend_labels (a # as) = legend_labels as"

fun take_sizes :: "nat list \<Rightarrow> 'a list \<Rightarrow> 'a list list" where
  "take_sizes [] xs = []"
| "take_sizes (k # ks) xs = take k xs # take_sizes ks (drop k xs)"

definition array_split :: "'a list \<Rightarrow> nat \<Rightarrow> 'a list list" where
  "array_split xs n =
     take_sizes (replicate (length xs mod n) (length xs div n + 1) @
                 replicate (n - length xs mod n) (length xs div n)) xs"

definition ax_legend_call :: "artist list \<Rightarrow> rat \<times> rat \<Rightarrow> string \<Rightarrow> rat \<Rightarrow> rat \<Rightarrow> nat \<Rightarrow> legend" where
  "ax_legend_call drawn anchor lc alpha fs n =
     \<lparr>bbox_to_anchor = anchor, loc = lc, framealpha = alpha, fontsize = fs, ncol = n,
      legend_columns = filter (\<lambda>col. col \<noteq> []) (array_split (legend_labels drawn) n)\<rparr>"

section \<open>\<open>DataViewer.write\<close>\<close>

text \<open>
  Lines 34 to 60 of \<open>data_viewer.py\<close>. \<open>data\<close> is the dictionary of data frames, in key
  order; \<open>radio\<close> is the radio widget of \<open>st_loc\<close>, which answers with the option the user has
  picked. The selection \<open>shown_df[columns]\<close> is evaluated and its result is not used: the
  call \<open>st.write\<close> receives \<open>data[data_key]\<close>. (\<open>write\<close> alone is not a name Isabelle accepts
  here, hence \<open>viewer_write\<close>.)
\<close>

definition viewer_write ::
  "(string list \<Rightarrow> string option) \<Rightarrow> world \<Rightarrow> (string \<times> dataframe) list \<Rightarrow> string option \<Rightarrow>
   string list option \<Rightarrow> error + world" where
  "viewer_write radio w data data_key columns =
     (let key = (case data_key of None \<Rightarrow> radio (map fst data) | Some k \<Rightarrow> Some k)
      in case (case key of None \<Rightarrow> None | Some k \<Rightarrow> map_of data k) of
           None \<Rightarrow>
             Inr (w\<lparr>shown := shown w @
                    [ShowText ((case key of None \<Rightarrow> ''None'' | Some k \<Rightarrow> k) @
                               '' not found in data'')]\<rparr>)
         | Some df \<Rightarrow>
             (case (case columns of None \<Rightarrow> Inr df | Some cs \<Rightarrow> df_select df cs) of
                Inl e \<Rightarrow> Inl e
              | Inr shown_df \<Rightarrow> Inr (w\<lparr>shown := shown w @ [ShowFrame df]\<rparr>)))"

section \<open>\<open>DataViewer.lineplot\<close>\<close>

text \<open>The keyword arguments of \<open>lineplot\<close>, under the names of the source.\<close>

record plot_kw =
  categories :: "string list option"
  cumulative :: bool
  x_label :: "string option"
  y_label :: "string option"
  fig_width :: rat
  fig_height :: rat
  yscale :: string
  x_lim :: "(rat \<times> rat) option"
  y_lim :: "(rat \<times> rat) option"
  xtick_spacing :: "rat option"
  ytick_spacing :: "rat option"
  font_scale :: rat
  linewidth :: rat
  marker_size :: rat
  category_colors :: "(string \<rightharpoonup> color) option"
  seaborn_style :: string
  include_legend :: bool
  legend_x :: rat
  legend_y :: rat
  legend_loc :: string
  legend_scale :: rat
  include_annotations :: bool
  annotations_ha :: string

text \<open>The defaults of the signature; \<open>figsize\<close> is \<open>plt.rcParams['figure.figsize']\<close> at the
  time the module is loaded.\<close>

definition default_kw :: "rat \<times> rat \<Rightarrow> plot_kw" where
  "default_kw rc_figsize =
     \<lparr>categories = None, cumulative = False, x_label = None, y_label = None,
      fig_width = fst rc_figsize * 2, fig_height = snd rc_figsize, yscale = ''linear'',
      x_lim = None, y_lim = None, xtick_spacing = None, ytick_spacing = None,
      font_scale = 1, linewidth = 2, marker_size = 30, category_colors = None,
      seaborn_style = ''whitegrid'', include_legend = True, legend_x = 1, legend_y = 1,
      legend_loc = ''lower right'', legend_scale = 1, include_annotations = False,
      annotations_ha = ''left''\<rparr>"

text \<open>The arguments are references to a data frame and, when given, to a series, as the
  signature annotates them; a reference to anything else is a \<open>TypeError\<close>.\<close>

definition load_frame :: "store \<Rightarrow> ref \<Rightarrow> error + dataframe" where
  "load_frame h r = (case lookup h r of Some (DataFrame df) \<Rightarrow> Inr df | _ \<Rightarrow> Inl TypeError)"

definition load_series :: "store \<Rightarrow> ref option \<Rightarrow> error + rat list option" where
  "load_series h r =
     (case r of
        None \<Rightarrow> Inr None
      | Some a \<Rightarrow> (case lookup h a of Some (Series t) \<Rightarrow> Inr (Some t) | _ \<Rightarrow> Inl TypeError))"

text \<open>
  Lines 131 to 135: \<open>df = df.cumsum(axis='rows')\<close> and \<open>totals = totals.cumsum()\<close> allocate
  new objects and rebind the local names to them.
\<close>

definition cumulative_transform ::
  "store \<Rightarrow> dataframe \<Rightarrow> rat list option \<Rightarrow> store \<times> dataframe \<times> rat list option" where
  "cumulative_transform h df totals =
     (let h1 = fst (alloc h (DataFrame (df_cumsum df)))
      in case totals of
           None \<Rightarrow> (h1, df_cumsum df, None)
         | Some t \<Rightarrow> (fst (alloc h1 (Series (cumsum t))), df_cumsum df, Some (cumsum t)))"

text \<open>
  Lines 141 to 143: a supplied colour map is used as it is; otherwise the dictionary
  comprehension pairs the categories in order with \<open>color_palette[i]\<close>, a later duplicate
  of a key replacing the earlier entry, and \<open>IndexError\<close> when the palette is too short.
\<close>

definition resolve_colors ::
  "color list \<Rightarrow> string list \<Rightarrow> (string \<rightharpoonup> color) option \<Rightarrow> error + (string \<rightharpoonup> color)" where
  "resolve_colors color_palette cats given =
     (case given of
        Some m \<Rightarrow> Inr m
      | None \<Rightarrow>
          if length color_palette < length cats then Inl IndexError
          else Inr (fold (\<lambda>(i, key) m. m(key \<mapsto> color_palette ! i)) (enumerate 0 cats) Map.empty))"

text \<open>\<open>ax.plot\<close> and \<open>ax.scatter\<close> refuse x and y of different lengths with \<open>ValueError\<close>.\<close>

definition ax_plot :: "rat list \<Rightarrow> rat list \<Rightarrow> rat \<Rightarrow> rat \<Rightarrow> nat \<Rightarrow> color \<Rightarrow> error + artist" where
  "ax_plot xs ys lw alpha z col =
     (if length xs \<noteq> length ys then Inl ValueError else Inr (Line xs ys lw alpha z col))"

definition ax_scatter :: "rat list \<Rightarrow> rat list \<Rightarrow> string \<Rightarrow> nat \<Rightarrow> color \<Rightarrow> rat \<Rightarrow> error + artist" where
  "ax_scatter xs ys l z col s =
     (if length xs \<noteq> length ys then Inl ValueError else Inr (Markers xs ys l z col s))"

text \<open>Lines 150 to 187, one iteration of the loop over the categories.\<close>

definition draw_category ::
  "plot_kw \<Rightarrow> rat list \<Rightarrow> dataframe \<Rightarrow> (string \<rightharpoonup> color) \<Rightarrow> string \<Rightarrow> error + artist list" where
  "draw_category kw xs df colors category_j =
     (case df_getitem df category_j of
        Inl e \<Rightarrow> Inl e
      | Inr ys \<Rightarrow>
          (case colors category_j of
             None \<Rightarrow> Inl KeyError
           | Some col \<Rightarrow>
               (case ax_plot xs ys (linewidth kw) (1 / 2) 2 col of
                  Inl e \<Rightarrow> Inl e
                | Inr line_a \<Rightarrow>
                    (case ax_scatter xs ys category_j 2 col (marker_size kw) of
                       Inl e \<Rightarrow> Inl e
                     | Inr marks_a \<Rightarrow>
                         if include_annotations kw then
                           (if ys = [] then Inl IndexError
                            else Inr [line_a, marks_a,
                                   Annotation category_j (last ys)
                                     (- 5 + 10 * (if annotations_ha kw = ''left'' then 1 else 0))
                                     (annotations_ha kw)])
                         else Inr [line_a, marks_a]))))"

fun draw_categories ::
  "plot_kw \<Rightarrow> rat list \<Rightarrow> dataframe \<Rightarrow> (string \<rightharpoonup> color) \<Rightarrow> string list \<Rightarrow> error + artist list" where
  "draw_categories kw xs df colors [] = Inr []"
| "draw_categories kw xs df colors (category_j # rest) =
     (case draw_category kw xs df colors category_j of
        Inl e \<Rightarrow> Inl e
      | Inr drawn \<Rightarrow>
          (case draw_categories kw xs df colors rest of
             Inl e \<Rightarrow> Inl e
           | Inr others \<Rightarrow> Inr (drawn @ others)))"

text \<open>Lines 189 to 205, the totals in black under the categories.\<close>

definition draw_totals :: "plot_kw \<Rightarrow> rat list \<Rightarrow> rat list option \<Rightarrow> error + artist list" where
  "draw_totals kw xs totals =
     (case totals of
        None \<Rightarrow> Inr []
      | Some t \<Rightarrow>
          (case ax_plot xs t (linewidth kw) (1 / 2) 1 ''k'' of
             Inl e \<Rightarrow> Inl e
           | Inr line_a \<Rightarrow>
               (case ax_scatter xs t ''Total'' 1 ''k'' (marker_size kw) of
                  Inl e \<Rightarrow> Inl e
                | Inr marks_a \<Rightarrow> Inr [line_a, marks_a])))"

definition set_yscale :: "mpl \<Rightarrow> string \<Rightarrow> error + string" where
  "set_yscale lib s = (if s \<in> set (scale_names lib) then Inr s else Inl ValueError)"

text \<open>Lines 219 to 227, the ticks.\<close>

definition x_ticks :: "plot_kw \<Rightarrow> rat list \<Rightarrow> rat \<times> rat \<Rightarrow> error + rat list" where
  "x_ticks kw xs xl =
     (case xtick_spacing kw of
        None \<Rightarrow> Inr (map (\<lambda>x. of_int (astype_int x)) xs)
      | Some s \<Rightarrow> np_arange (fst xl) (snd xl) s)"

definition y_ticks :: "plot_kw \<Rightarrow> rat \<times> rat \<Rightarrow> error + rat list option" where
  "y_ticks kw yl =
     (case ytick_spacing kw of
        None \<Rightarrow> Inr None
      | Some s \<Rightarrow> (case np_arange (fst yl) (snd yl) s of Inl e \<Rightarrow> Inl e | Inr t \<Rightarrow> Inr (Some t)))"

text \<open>Lines 148 to 243: the figure, from the data frame and totals as they are after the
  cumulative step, the categories and their colours.\<close>

definition render ::
  "mpl \<Rightarrow> plot_kw \<Rightarrow> dataframe \<Rightarrow> rat list option \<Rightarrow> string list \<Rightarrow> (string \<rightharpoonup> color) \<Rightarrow>
   error + figure" where
  "render lib kw df totals cats colors =
     (let xs = df_index df
      in case draw_categories kw xs df colors cats of
           Inl e \<Rightarrow> Inl e
         | Inr drawn_c \<Rightarrow>
             (case draw_totals kw xs totals of
                Inl e \<Rightarrow> Inl e
              | Inr drawn_t \<Rightarrow>
                  (case set_yscale lib (yscale kw) of
                     Inl e \<Rightarrow> Inl e
                   | Inr sc \<Rightarrow>
                       (let drawn = drawn_c @ drawn_t;
                            xl = (case x_lim kw of None \<Rightarrow> auto_xlim lib drawn | Some l \<Rightarrow> l);
                            yl = (case y_lim kw of None \<Rightarrow> auto_ylim lib sc drawn | Some l \<Rightarrow> l)
                        in case x_ticks kw xs xl of
                             Inl e \<Rightarrow> Inl e
                           | Inr xt \<Rightarrow>
                               (case y_ticks kw yl of
                                  Inl e \<Rightarrow> Inl e
                                | Inr yt \<Rightarrow>
                                    Inr \<lparr>figsize = (fig_width kw, fig_height kw),
                                         artists = drawn,
                                         ax_yscale = sc,
                                         ax_xlim = x_lim kw,
                                         ax_ylim = y_lim kw,
                                         ax_xticks = xt,
                                         ax_yticks = yt,
                                         ax_legend =
                                           (if include_legend kw then
                                              Some (ax_legend_call drawn (legend_x kw, legend_y kw)
                                                      (legend_loc kw) 1
                                                      (legend_fontsize lib * legend_scale kw)
                                                      (length cats div 4 + 1))
                                            else None),
                                         ax_xlabel =
                                           map_option (\<lambda>l. (l, axes_labelsize lib * font_scale kw))
                                             (x_label kw),
                                         ax_ylabel =
                                           map_option (\<lambda>l. (l, axes_labelsize lib * font_scale kw))
                                             (y_label kw),
                                         tick_labelsize = xtick_labelsize lib * font_scale kw\<rparr>)))))"

text \<open>
  The whole call. The palette is read (line 142) before \<open>sns.set\<close> installs seaborn's own
  (line 145); \<open>st.write(fig)\<close> shows the figure, which is also the returned value. An
  exception leaves the process in the state reached when it was raised.
\<close>

definition lineplot ::
  "mpl \<Rightarrow> world \<Rightarrow> ref \<Rightarrow> ref option \<Rightarrow> plot_kw \<Rightarrow> (error + figure) \<times> world" where
  "lineplot lib w df_ref totals_ref kw =
     (case load_frame (heap w) df_ref of
        Inl e \<Rightarrow> (Inl e, w)
      | Inr df0 \<Rightarrow>
          (case load_series (heap w) totals_ref of
             Inl e \<Rightarrow> (Inl e, w)
           | Inr totals0 \<Rightarrow>
               (let (h1, df, totals) =
                      (if cumulative kw then cumulative_transform (heap w) df0 totals0
                       else (heap w, df0, totals0));
                    w1 = w\<lparr>heap := h1\<rparr>;
                    cats = (case categories kw of None \<Rightarrow> map fst (df_columns df) | Some cs \<Rightarrow> cs)
                in case resolve_colors (sns_color_palette w1) cats (category_colors kw) of
                     Inl e \<Rightarrow> (Inl e, w1)
                   | Inr colors \<Rightarrow>
                       (case sns_set (seaborn_style kw) w1 of
                          Inl e \<Rightarrow> (Inl e, w1)
                        | Inr w2 \<Rightarrow>
                            (case render lib kw df totals cats colors of
                               Inl e \<Rightarrow> (Inl e, w2)
                             | Inr fig \<Rightarrow> (Inr fig, w2\<lparr>shown := shown w2 @ [ShowFigure fig]\<rparr>))))))"

section \<open>Reading a figure\<close>

text \<open>
  What a figure shows, read off its artists: the labelled series (the markers of
  \<open>ax.scatter\<close> carry the label), the y values of the connecting lines, and the colour of
  each labelled series.
\<close>

fun labelled_series :: "artist list \<Rightarrow> (string \<times> rat list) list" where
  "labelled_series [] = []"
| "labelled_series (Markers xs ys l z c s # as) = (l, ys) # labelled_series as"
| "labelled_series (a # as) = labelled_series as"

fun line_series :: "artist list \<Rightarrow> rat list list" where
  "line_series [] = []"
| "line_series (Line xs ys lw al z c # as) = ys # line_series as"
| "line_series (a # as) = line_series as"

fun series_colors :: "artist list \<Rightarrow> (string \<times> color) list" where
  "series_colors [] = []"
| "series_colors (Markers xs ys l z c s # as) = (l, c) # series_colors as"
| "series_colors (a # as) = series_colors as"

text \<open>
  One instance of the library parameters, for running the model on concrete inputs: the
  scale names of matplotlib, the font sizes of seaborn's \<open>notebook\<close> context, and automatic
  limits that span the drawn data with matplotlib's margin of 5 percent. The general
  theorems below hold for every instance.
\<close>

definition data_span :: "rat list \<Rightarrow> rat \<times> rat" where
  "data_span vs =
     (case vs of
        [] \<Rightarrow> (0, 1)
      | v # rest \<Rightarrow>
          (let lo = fold min rest v; hi = fold max rest v
           in (lo - (hi - lo) * (5 / 100), hi + (hi - lo) * (5 / 100))))"

fun artist_xs :: "artist \<Rightarrow> rat list" where
  "artist_xs (Line xs ys lw al z c) = xs"
| "artist_xs (Markers xs ys l z c s) = xs"
| "artist_xs (Annotation l y off ha) = []"

fun artist_ys :: "artist \<Rightarrow> rat list" where
  "artist_ys (Line xs ys lw al z c) = ys"
| "artist_ys (Markers xs ys l z c s) = ys"
| "artist_ys (Annotation l y off ha) = []"

definition example_mpl :: mpl where
  "example_mpl =
     \<lparr>auto_xlim = (\<lambda>drawn. data_span (concat (map artist_xs drawn))),
      auto_ylim = (\<lambda>sc drawn. data_span (concat (map artist_ys drawn))),
      scale_names = [''asinh'', ''function'', ''functionlog'', ''linear'', ''log'', ''logit'',
                     ''symlog''],
      legend_fontsize = 11, axes_labelsize = 12, xtick_labelsize = 11\<rparr>"

text \<open>
  The example of the specification: columns \<open>A = [1, 2, 3]\<close> and \<open>B = [0, 1, 1]\<close> over the
  x values 2020 to 2022, as the only object of a fresh process, whose colour cycle is
  matplotlib's default; and the default arguments under matplotlib's default figure size.
\<close>

definition example_frame :: dataframe where
  "example_frame =
     \<lparr>df_index = [2020, 2021, 2022],
      df_columns = [(''A'', [1, 2, 3]), (''B'', [0, 1, 1])]\<rparr>"

definition example_world :: world where
  "example_world =
     \<lparr>heap = [DataFrame example_frame, Series [1, 3, 4], Series [1, 3]],
      color_cycle = mpl_default_cycle, shown = []\<rparr>"

definition example_kw :: plot_kw where
  "example_kw = default_kw (32 / 5, 24 / 5)"


section \<open>Properties of the numeric operations\<close>



lemma np_max_empty: "np_max [] = Inl ValueError"
  by (simp add: np_max_def)







section \<open>Claims about the tick heuristic\<close>










section \<open>Properties of the data operations\<close>



lemma cumsum_from_nth:
  "i < length vs \<Longrightarrow> cumsum_from a vs ! i = a + sum_list (take (Suc i) vs)"
proof (induction vs arbitrary: a i)
  case Nil
  then show ?case by simp
next
  case (Cons v vs)
  show ?case
  proof (cases i)
    case 0
    then show ?thesis by simp
  next
    case (Suc j)
    with Cons.prems have "j < length vs" by simp
    from Cons.IH [OF this, of "a + v"] Suc show ?thesis by (simp add: add.assoc)
  qed
qed

lemma cumsum_nth: "i < length vs \<Longrightarrow> cumsum vs ! i = sum_list (take (Suc i) vs)"
  by (simp add: cumsum_def cumsum_from_nth)


lemma df_cumsum_names: "map fst (df_columns (df_cumsum df)) = map fst (df_columns df)"
  by (simp add: df_cumsum_def case_prod_unfold comp_def)

lemma map_of_cumsum_columns:
  "map_of (map (\<lambda>(c, vs). (c, cumsum vs)) cols) c = map_option cumsum (map_of cols c)"
  by (induction cols) auto

lemma df_cumsum_getitem:
  "df_getitem (df_cumsum df) c =
     (case df_getitem df c of Inl e \<Rightarrow> Inl e | Inr vs \<Rightarrow> Inr (cumsum vs))"
  by (simp add: df_getitem_def df_cumsum_def map_of_cumsum_columns split: option.splits)

lemma cumulative_transform_values:
  "snd (cumulative_transform h df totals) = (df_cumsum df, map_option cumsum totals)"
  by (simp add: cumulative_transform_def Let_def split: option.splits)

lemma cumulative_transform_store:
  "\<exists>new. fst (cumulative_transform h df totals) = h @ new"
  by (simp add: cumulative_transform_def alloc_def Let_def split: option.splits)

text \<open>The data the figure is drawn from, and the state in which it is drawn.\<close>

lemma lineplot_unfold:
  fixes kw :: plot_kw and w :: world and df0 :: dataframe and totals0 :: "rat list option"
  assumes "load_frame (heap w) d = Inr df0" and "load_series (heap w) t = Inr totals0"
  defines "df \<equiv> (if cumulative kw then df_cumsum df0 else df0)"
    and "totals \<equiv> (if cumulative kw then map_option cumsum totals0 else totals0)"
    and "w1 \<equiv> w\<lparr>heap := (if cumulative kw then fst (cumulative_transform (heap w) df0 totals0) else heap w)\<rparr>"
  defines "cats \<equiv> (case categories kw of None \<Rightarrow> map fst (df_columns df0) | Some cs \<Rightarrow> cs)"
  shows "lineplot lib w d t kw =
    (case resolve_colors (color_cycle w) cats (category_colors kw) of
       Inl e \<Rightarrow> (Inl e, w1)
     | Inr colors \<Rightarrow>
         (case sns_set (seaborn_style kw) w1 of
            Inl e \<Rightarrow> (Inl e, w1)
          | Inr w2 \<Rightarrow>
              (case render lib kw df totals cats colors of
                 Inl e \<Rightarrow> (Inl e, w2)
               | Inr fig \<Rightarrow> (Inr fig, w2\<lparr>shown := shown w2 @ [ShowFigure fig]\<rparr>))))"
proof -
  have v: "fst (snd (cumulative_transform (heap w) df0 totals0)) = df_cumsum df0"
    "snd (snd (cumulative_transform (heap w) df0 totals0)) = map_option cumsum totals0"
    by (simp_all add: cumulative_transform_values)
  show ?thesis
    unfolding lineplot_def df_def totals_def w1_def cats_def
    using assms(1,2)
    by (cases "cumulative kw")
      (simp_all add: sns_color_palette_def Let_def case_prod_beta v df_cumsum_names
        cong: sum.case_cong option.case_cong)
qed

section \<open>Properties of drawing\<close>

lemma draw_category_Inr:
  assumes "draw_category kw xs df colors c = Inr arts"
  shows "\<exists>ys col. df_getitem df c = Inr ys \<and> colors c = Some col \<and> length xs = length ys \<and>
     arts = [Line xs ys (linewidth kw) (1 / 2) 2 col, Markers xs ys c 2 col (marker_size kw)] @
            (if include_annotations kw
             then [Annotation c (last ys)
                     (- 5 + 10 * (if annotations_ha kw = ''left'' then 1 else 0))
                     (annotations_ha kw)]
             else [])"
  using assms
  by (auto simp: draw_category_def ax_plot_def ax_scatter_def
      split: sum.splits option.splits if_splits)

lemma labelled_series_append:
  "labelled_series (as @ bs) = labelled_series as @ labelled_series bs"
  by (induction as rule: labelled_series.induct) simp_all

lemma line_series_append: "line_series (as @ bs) = line_series as @ line_series bs"
  by (induction as rule: line_series.induct) simp_all

lemma series_colors_append: "series_colors (as @ bs) = series_colors as @ series_colors bs"
  by (induction as rule: series_colors.induct) simp_all

lemma legend_labels_append: "legend_labels (as @ bs) = legend_labels as @ legend_labels bs"
  by (induction as rule: legend_labels.induct) simp_all

lemma df_getitem_Inr: "df_getitem df c = Inr ys \<longleftrightarrow> map_of (df_columns df) c = Some ys"
  by (simp add: df_getitem_def split: option.splits)

lemma draw_categories_Inr:
  assumes "draw_categories kw xs df colors cats = Inr arts"
  shows "labelled_series arts = map (\<lambda>c. (c, the (map_of (df_columns df) c))) cats \<and>
         line_series arts = map (\<lambda>c. the (map_of (df_columns df) c)) cats \<and>
         series_colors arts = map (\<lambda>c. (c, the (colors c))) cats \<and>
         (\<forall>c\<in>set cats. map_of (df_columns df) c \<noteq> None \<and> colors c \<noteq> None) \<and>
         length (legend_labels arts) \<le> length cats"
  using assms
proof (induction cats arbitrary: arts)
  case Nil
  then show ?case by simp
next
  case (Cons c cats)
  from Cons.prems obtain a1 a2 where
    a1: "draw_category kw xs df colors c = Inr a1" and
    a2: "draw_categories kw xs df colors cats = Inr a2" and
    arts: "arts = a1 @ a2"
    by (auto split: sum.splits)
  from draw_category_Inr [OF a1] obtain ys col where
    c: "df_getitem df c = Inr ys" "colors c = Some col" and
    a1_eq: "a1 = [Line xs ys (linewidth kw) (1 / 2) 2 col, Markers xs ys c 2 col (marker_size kw)] @
            (if include_annotations kw
             then [Annotation c (last ys)
                     (- 5 + 10 * (if annotations_ha kw = ''left'' then 1 else 0))
                     (annotations_ha kw)]
             else [])"
    by blast
  have m: "map_of (df_columns df) c = Some ys" using c(1) by (simp add: df_getitem_Inr)
  have s1: "labelled_series a1 = [(c, ys)]" "line_series a1 = [ys]"
    "series_colors a1 = [(c, col)]" "length (legend_labels a1) \<le> 1"
    unfolding a1_eq by simp_all
  from Cons.IH [OF a2] s1 m c(2) show ?case
    unfolding arts
    by (simp add: labelled_series_append line_series_append series_colors_append
        legend_labels_append)
qed


lemma draw_totals_Inr:
  assumes "draw_totals kw xs totals = Inr arts"
  shows "(case totals of
            None \<Rightarrow> arts = []
          | Some t \<Rightarrow> length xs = length t \<and>
              arts = [Line xs t (linewidth kw) (1 / 2) 1 ''k'',
                      Markers xs t ''Total'' 1 ''k'' (marker_size kw)])"
  using assms
  by (auto simp: draw_totals_def ax_plot_def ax_scatter_def split: option.splits if_splits)


lemma render_Inr:
  assumes "render lib kw df totals cats colors = Inr fig"
  shows "\<exists>drawn_c drawn_t xt yt.
     draw_categories kw (df_index df) df colors cats = Inr drawn_c \<and>
     draw_totals kw (df_index df) totals = Inr drawn_t \<and>
     yscale kw \<in> set (scale_names lib) \<and>
     x_ticks kw (df_index df)
        (case x_lim kw of None \<Rightarrow> auto_xlim lib (drawn_c @ drawn_t) | Some l \<Rightarrow> l) = Inr xt \<and>
     y_ticks kw
        (case y_lim kw of None \<Rightarrow> auto_ylim lib (yscale kw) (drawn_c @ drawn_t) | Some l \<Rightarrow> l) = Inr yt \<and>
     artists fig = drawn_c @ drawn_t \<and> ax_xticks fig = xt \<and> ax_yticks fig = yt \<and>
     ax_xlim fig = x_lim kw \<and> ax_ylim fig = y_lim kw \<and>
     ax_legend fig =
       (if include_legend kw then
          Some (ax_legend_call (drawn_c @ drawn_t) (legend_x kw, legend_y kw) (legend_loc kw) 1
                  (legend_fontsize lib * legend_scale kw) (length cats div 4 + 1))
        else None)"
  using assms
  by (auto simp: render_def Let_def set_yscale_def split: sum.splits if_splits)


section \<open>Properties of \<open>lineplot\<close>\<close>

lemma lineplot_Inr:
  fixes kw :: plot_kw and w :: world and df0 :: dataframe and totals0 :: "rat list option"
  assumes "lineplot lib w d t kw = (Inr fig, w')"
    and "load_frame (heap w) d = Inr df0" and "load_series (heap w) t = Inr totals0"
  shows "\<exists>colors.
     resolve_colors (color_cycle w)
       (case categories kw of None \<Rightarrow> map fst (df_columns df0) | Some cs \<Rightarrow> cs)
       (category_colors kw) = Inr colors \<and>
     seaborn_style kw \<in> set seaborn_styles \<and>
     render lib kw (if cumulative kw then df_cumsum df0 else df0)
       (if cumulative kw then map_option cumsum totals0 else totals0)
       (case categories kw of None \<Rightarrow> map fst (df_columns df0) | Some cs \<Rightarrow> cs)
       colors = Inr fig"
  using assms(1) unfolding lineplot_unfold [OF assms(2,3)]
  by (auto simp: sns_set_def split: sum.splits if_splits)

lemma the_map_option: "m \<noteq> None \<Longrightarrow> the (map_option f m) = f (the m)"
  by (cases m) simp_all

lemma lineplot_example_cumulative:
  "map_sum id (\<lambda>f. labelled_series (artists f))
     (fst (lineplot example_mpl example_world 0 None (example_kw\<lparr>cumulative := True\<rparr>))) =
   Inr [(''A'', [1, 3, 6]), (''B'', [0, 1, 2])]"
  by code_simp

lemma example_loads:
  "load_frame (heap example_world) 0 = Inr example_frame"
  "load_series (heap example_world) (Some 1) = Inr (Some [1, 3, 4])"
  "load_series (heap example_world) (Some 2) = Inr (Some [1, 3])"
  "load_series (heap example_world) None = Inr None"
  by (simp_all add: load_frame_def load_series_def lookup_def example_world_def)

lemma example_cumulative_returns:
  "isl (fst (lineplot example_mpl example_world 0 (Some 1) (example_kw\<lparr>cumulative := True\<rparr>)))
     = False"
  by code_simp

lemma sns_set_fields:
  assumes "sns_set style w = Inr w2"
  shows "heap w2 = heap w" and "shown w2 = shown w" and "color_cycle w2 = seaborn_deep"
  using assms by (auto simp: sns_set_def split: if_splits)

lemma lineplot_load_failure:
  assumes "load_frame (heap w) d = Inl e \<or>
    (\<exists>df0. load_frame (heap w) d = Inr df0 \<and> load_series (heap w) t = Inl e)"
  shows "lineplot lib w d t kw = (Inl e, w)"
  using assms by (auto simp: lineplot_def)

lemma lineplot_store:
  "\<exists>new. heap (snd (lineplot lib w d t kw)) = heap w @ new"
proof (cases "load_frame (heap w) d")
  case (Inl e)
  then show ?thesis by (simp add: lineplot_load_failure)
next
  case df: (Inr df0)
  show ?thesis
  proof (cases "load_series (heap w) t")
    case (Inl e)
    with df show ?thesis by (simp add: lineplot_load_failure)
  next
    case (Inr totals0)
    from cumulative_transform_store [of "heap w" df0 totals0] obtain new where
      n: "fst (cumulative_transform (heap w) df0 totals0) = heap w @ new" by blast
    show ?thesis
      unfolding lineplot_unfold [OF df Inr]
      by (auto simp: n sns_set_def split: sum.splits if_splits)
  qed
qed






lemma example_cumulative_store:
  "heap (snd (lineplot example_mpl example_world 0 (Some 1) (example_kw\<lparr>cumulative := True\<rparr>))) =
     [DataFrame example_frame, Series [1, 3, 4], Series [1, 3],
      DataFrame \<lparr>df_index = [2020, 2021, 2022],
                 df_columns = [(''A'', [1, 3, 6]), (''B'', [0, 1, 2])]\<rparr>,
      Series [1, 4, 8]]"
  by code_simp

section \<open>Properties of the legend and of the ticks\<close>

lemma take_sizes_bound:
  "col \<in> set (take_sizes ks xs) \<Longrightarrow> \<exists>k\<in>set ks. length col \<le> k"
  by (induction ks xs rule: take_sizes.induct) auto

lemma array_split_bound:
  assumes "0 < n" and "length xs \<le> 4 * n" and "col \<in> set (array_split xs n)"
  shows "length col \<le> 4"
proof -
  let ?q = "length xs div n" and ?r = "length xs mod n"
  from assms(3) take_sizes_bound obtain k where
    k: "k \<in> set (replicate ?r (?q + 1) @ replicate (n - ?r) ?q)" "length col \<le> k"
    unfolding array_split_def by blast
  have q4: "?q \<le> 4"
  proof -
    have "?q \<le> (4 * n) div n" using assms(2) by (rule div_le_mono)
    then show ?thesis using assms(1) by simp
  qed
  have "?q + 1 \<le> 4" if "0 < ?r"
  proof (rule ccontr)
    assume "\<not> ?q + 1 \<le> 4"
    with q4 have "?q = 4" by simp
    then have "length xs = 4 * n + ?r" using div_mult_mod_eq [of "length xs" n] by simp
    with that assms(2) show False by simp
  qed
  with q4 k show ?thesis by (auto split: if_splits)
qed

lemma draw_totals_legend:
  assumes "draw_totals kw xs totals = Inr arts"
  shows "length (legend_labels arts) \<le> 1"
  using draw_totals_Inr [OF assms] by (cases totals) simp_all





lemma Inr_from_not_isl:
  assumes "isl (fst p) = False"
  obtains fig w' where "p = (Inr fig, w')"
  using assms by (cases p; cases "fst p") auto

lemma example_legend_returns:
  "isl (fst (lineplot example_mpl example_world 0 (Some 1)
       (example_kw\<lparr>categories := Some [''A'', ''B'', ''A'', ''B'']\<rparr>))) = False"
  by code_simp

lemma example_legend_columns:
  "map_sum id (\<lambda>f. map_option legend_columns (ax_legend f))
     (fst (lineplot example_mpl example_world 0 (Some 1)
       (example_kw\<lparr>categories := Some [''A'', ''B'', ''A'', ''B'']\<rparr>))) =
   Inr (Some [[''A'', ''B'', ''A''], [''B'', ''Total'']])"
  by code_simp



section \<open>Claims about \<open>lineplot\<close>\<close>

text \<open>
  C4. When \<open>lineplot\<close> returns a figure and \<open>cumulative\<close> is true, the series it has drawn
  are, for each category in order, the running sums of that column of the caller's frame,
  followed by the running sums of the totals when totals are given; the connecting lines
  carry the same values. A running sum at position \<open>i\<close> is the sum of the first \<open>i + 1\<close>
  values. For the columns \<open>A = [1, 2, 3]\<close> and \<open>B = [0, 1, 1]\<close> over 2020 to 2022 the drawn
  series are \<open>A = [1, 3, 6]\<close> and \<open>B = [0, 1, 2]\<close>.
\<close>

theorem lineplot_cumulative_series:
  "(lineplot lib w d t kw = (Inr fig, w') \<and> cumulative kw \<and>
   load_frame (heap w) d = Inr df0 \<and> load_series (heap w) t = Inr totals0 \<longrightarrow>
     labelled_series (artists fig) =
       map (\<lambda>c. (c, cumsum (the (map_of (df_columns df0) c))))
         (case categories kw of None \<Rightarrow> map fst (df_columns df0) | Some cs \<Rightarrow> cs) @
       (case totals0 of None \<Rightarrow> [] | Some ts \<Rightarrow> [(''Total'', cumsum ts)]) \<and>
     line_series (artists fig) =
       map (\<lambda>c. cumsum (the (map_of (df_columns df0) c)))
         (case categories kw of None \<Rightarrow> map fst (df_columns df0) | Some cs \<Rightarrow> cs) @
       (case totals0 of None \<Rightarrow> [] | Some ts \<Rightarrow> [cumsum ts]) \<and>
     (\<forall>vs i. i < length vs \<longrightarrow> cumsum vs ! i = sum_list (take (Suc i) vs))) \<and>
   map_sum id (\<lambda>f. labelled_series (artists f))
     (fst (lineplot example_mpl example_world 0 None (example_kw\<lparr>cumulative := True\<rparr>))) =
   Inr [(''A'', [1, 3, 6]), (''B'', [0, 1, 2])]"
proof -
  have general: "lineplot lib w d t kw = (Inr fig, w') \<and> cumulative kw \<and>
   load_frame (heap w) d = Inr df0 \<and> load_series (heap w) t = Inr totals0 \<longrightarrow>
     labelled_series (artists fig) =
       map (\<lambda>c. (c, cumsum (the (map_of (df_columns df0) c))))
         (case categories kw of None \<Rightarrow> map fst (df_columns df0) | Some cs \<Rightarrow> cs) @
       (case totals0 of None \<Rightarrow> [] | Some ts \<Rightarrow> [(''Total'', cumsum ts)]) \<and>
     line_series (artists fig) =
       map (\<lambda>c. cumsum (the (map_of (df_columns df0) c)))
         (case categories kw of None \<Rightarrow> map fst (df_columns df0) | Some cs \<Rightarrow> cs) @
       (case totals0 of None \<Rightarrow> [] | Some ts \<Rightarrow> [cumsum ts]) \<and>
     (\<forall>vs i. i < length vs \<longrightarrow> cumsum vs ! i = sum_list (take (Suc i) vs))"
  proof (rule impI)
    assume a: "lineplot lib w d t kw = (Inr fig, w') \<and> cumulative kw \<and>
      load_frame (heap w) d = Inr df0 \<and> load_series (heap w) t = Inr totals0"
    let ?cats = "case categories kw of None \<Rightarrow> map fst (df_columns df0) | Some cs \<Rightarrow> cs"
    from a lineplot_Inr [of lib w d t kw fig w' df0 totals0] obtain colors where
      r: "render lib kw (df_cumsum df0) (map_option cumsum totals0) ?cats colors = Inr fig"
      by auto
    from render_Inr [OF r] obtain drawn_c drawn_t where
      dc: "draw_categories kw (df_index (df_cumsum df0)) (df_cumsum df0) colors ?cats = Inr drawn_c"
      and dt: "draw_totals kw (df_index (df_cumsum df0)) (map_option cumsum totals0) = Inr drawn_t"
      and arts: "artists fig = drawn_c @ drawn_t"
      by blast
    from draw_categories_Inr [OF dc] have
      ls: "labelled_series drawn_c =
             map (\<lambda>c. (c, the (map_of (df_columns (df_cumsum df0)) c))) ?cats"
      and ln: "line_series drawn_c = map (\<lambda>c. the (map_of (df_columns (df_cumsum df0)) c)) ?cats"
      and ex: "\<forall>c\<in>set ?cats. map_of (df_columns (df_cumsum df0)) c \<noteq> None"
      by simp_all
    have col: "the (map_of (df_columns (df_cumsum df0)) c) = cumsum (the (map_of (df_columns df0) c))"
      if "c \<in> set ?cats" for c
    proof -
      from ex that have "map_of (df_columns (df_cumsum df0)) c \<noteq> None" by blast
      then have "map_of (df_columns df0) c \<noteq> None"
        by (simp add: df_cumsum_def map_of_cumsum_columns)
      then show ?thesis by (simp add: df_cumsum_def map_of_cumsum_columns the_map_option)
    qed
    have ls': "labelled_series drawn_c =
        map (\<lambda>c. (c, cumsum (the (map_of (df_columns df0) c)))) ?cats"
      unfolding ls using col by (intro map_cong) simp_all
    have ln': "line_series drawn_c = map (\<lambda>c. cumsum (the (map_of (df_columns df0) c))) ?cats"
      unfolding ln using col by (intro map_cong) simp_all
    from draw_totals_Inr [OF dt] have
      tt: "labelled_series drawn_t = (case totals0 of None \<Rightarrow> [] | Some ts \<Rightarrow> [(''Total'', cumsum ts)])"
        "line_series drawn_t = (case totals0 of None \<Rightarrow> [] | Some ts \<Rightarrow> [cumsum ts])"
      by (cases totals0; simp)+
    show "labelled_series (artists fig) =
         map (\<lambda>c. (c, cumsum (the (map_of (df_columns df0) c)))) ?cats @
         (case totals0 of None \<Rightarrow> [] | Some ts \<Rightarrow> [(''Total'', cumsum ts)]) \<and>
       line_series (artists fig) =
         map (\<lambda>c. cumsum (the (map_of (df_columns df0) c))) ?cats @
         (case totals0 of None \<Rightarrow> [] | Some ts \<Rightarrow> [cumsum ts]) \<and>
       (\<forall>vs i. i < length vs \<longrightarrow> cumsum vs ! i = sum_list (take (Suc i) vs))"
      unfolding arts
      by (simp add: labelled_series_append line_series_append ls' ln' tt cumsum_nth)
  qed
  show ?thesis by (rule conjI [OF general lineplot_example_cumulative])
qed

theorem lineplot_cumulative_series_witness:
  "\<exists>fig w'. lineplot example_mpl example_world 0 (Some 1) (example_kw\<lparr>cumulative := True\<rparr>)
       = (Inr fig, w') \<and>
     labelled_series (artists fig) =
       [(''A'', [1, 3, 6]), (''B'', [0, 1, 2]), (''Total'', [1, 4, 8])]"
proof -
  let ?kw = "example_kw\<lparr>cumulative := True\<rparr>"
  obtain fig w' where run: "lineplot example_mpl example_world 0 (Some 1) ?kw = (Inr fig, w')"
    using example_cumulative_returns
    by (cases "lineplot example_mpl example_world 0 (Some 1) ?kw";
        cases "fst (lineplot example_mpl example_world 0 (Some 1) ?kw)") auto
  have c: "cumulative ?kw" by simp
  have cats: "categories ?kw = None" by (simp add: example_kw_def default_kw_def)
  from lineplot_cumulative_series
    [of example_mpl example_world 0 "Some 1" ?kw fig w' example_frame "Some [1, 3, 4]"]
    run c example_loads(1,2)
  have "labelled_series (artists fig) =
       map (\<lambda>c. (c, cumsum (the (map_of (df_columns example_frame) c))))
         (case categories ?kw of None \<Rightarrow> map fst (df_columns example_frame) | Some cs \<Rightarrow> cs) @
       (case Some [1, 3, 4] of None \<Rightarrow> [] | Some ts \<Rightarrow> [(''Total'', cumsum ts)])"
    by blast
  then have "labelled_series (artists fig) =
       [(''A'', [1, 3, 6]), (''B'', [0, 1, 2]), (''Total'', [1, 4, 8])]"
    by (simp add: cats example_frame_def cumsum_def)
  with run show ?thesis by blast
qed



text \<open>
  C7. Whatever \<open>lineplot\<close> does, with \<open>cumulative\<close> true or false, returning or
  raising, every object that was in the store before the call is there unchanged after
  it, the caller's frame and totals among them: the running sums are new objects.
\<close>

theorem lineplot_leaves_callers_objects:
  "lookup (heap (snd (lineplot lib w d t kw))) d = lookup (heap w) d \<and>
   (\<forall>r. t = Some r \<longrightarrow> lookup (heap (snd (lineplot lib w d t kw))) r = lookup (heap w) r) \<and>
   (\<forall>a. a < length (heap w) \<longrightarrow> lookup (heap (snd (lineplot lib w d t kw))) a = lookup (heap w) a)"
proof -
  from lineplot_store [of lib w d t kw] obtain new where
    h: "heap (snd (lineplot lib w d t kw)) = heap w @ new" by blast
  have old: "lookup (heap (snd (lineplot lib w d t kw))) a = lookup (heap w) a"
    if "a < length (heap w)" for a
    using that by (simp add: h lookup_def nth_append)
  have frame: "lookup (heap (snd (lineplot lib w d t kw))) d = lookup (heap w) d"
  proof (cases "d < length (heap w)")
    case True
    then show ?thesis by (rule old)
  next
    case False
    then have "load_frame (heap w) d = Inl TypeError" by (simp add: load_frame_def lookup_def)
    then show ?thesis by (simp add: lineplot_load_failure)
  qed
  have series: "lookup (heap (snd (lineplot lib w d t kw))) r = lookup (heap w) r"
    if "t = Some r" for r
  proof (cases "r < length (heap w)")
    case True
    then show ?thesis by (rule old)
  next
    case False
    with that have ls: "load_series (heap w) t = Inl TypeError"
      by (simp add: load_series_def lookup_def)
    show ?thesis
    proof (cases "load_frame (heap w) d")
      case (Inl e)
      then show ?thesis by (simp add: lineplot_load_failure)
    next
      case (Inr df0)
      with ls show ?thesis by (simp add: lineplot_load_failure)
    qed
  qed
  from old frame series show ?thesis by blast
qed

theorem lineplot_leaves_callers_objects_witness:
  "lookup (heap (snd (lineplot example_mpl example_world 0 (Some 1)
       (example_kw\<lparr>cumulative := True\<rparr>)))) 0 = Some (DataFrame example_frame) \<and>
   lookup (heap (snd (lineplot example_mpl example_world 0 (Some 1)
       (example_kw\<lparr>cumulative := True\<rparr>)))) 1 = Some (Series [1, 3, 4]) \<and>
   (2::nat) < length (heap example_world) \<and>
   lookup (heap (snd (lineplot example_mpl example_world 0 (Some 1)
       (example_kw\<lparr>cumulative := True\<rparr>)))) 2 = Some (Series [1, 3]) \<and>
   length (heap (snd (lineplot example_mpl example_world 0 (Some 1)
       (example_kw\<lparr>cumulative := True\<rparr>)))) = 5"
proof -
  have l: "lookup (heap example_world) 0 = Some (DataFrame example_frame)"
    "lookup (heap example_world) 1 = Some (Series [1, 3, 4])"
    "lookup (heap example_world) 2 = Some (Series [1, 3])"
    "(2::nat) < length (heap example_world)"
    by (simp_all add: lookup_def example_world_def)
  have n: "length (heap (snd (lineplot example_mpl example_world 0 (Some 1)
       (example_kw\<lparr>cumulative := True\<rparr>)))) = 5"
    unfolding example_cumulative_store by simp
  from lineplot_leaves_callers_objects
    [of example_mpl example_world 0 "Some 1" "example_kw\<lparr>cumulative := True\<rparr>"]
  have "lookup (heap (snd (lineplot example_mpl example_world 0 (Some 1)
       (example_kw\<lparr>cumulative := True\<rparr>)))) 0 = lookup (heap example_world) 0"
    "lookup (heap (snd (lineplot example_mpl example_world 0 (Some 1)
       (example_kw\<lparr>cumulative := True\<rparr>)))) 1 = lookup (heap example_world) 1"
    "lookup (heap (snd (lineplot example_mpl example_world 0 (Some 1)
       (example_kw\<lparr>cumulative := True\<rparr>)))) 2 = lookup (heap example_world) 2"
    using l(4) by blast+
  with l n show ?thesis by (simp only: simp_thms)
qed

text \<open>
  C8. When \<open>lineplot\<close> returns a figure with a legend, the legend has
  \<open>len(categories) // 4 + 1\<close> columns, and with the entries of the drawn categories and
  of the totals laid out by matplotlib no column holds more than four entries.
\<close>

theorem lineplot_legend_columns:
  assumes "lineplot lib w d t kw = (Inr fig, w')" and "include_legend kw"
    and "load_frame (heap w) d = Inr df0"
  shows "\<exists>lg. ax_legend fig = Some lg \<and>
     ncol lg = length (case categories kw of None \<Rightarrow> map fst (df_columns df0) | Some cs \<Rightarrow> cs)
                 div 4 + 1 \<and>
     (\<forall>col\<in>set (legend_columns lg). length col \<le> 4)"
proof -
  let ?cats = "case categories kw of None \<Rightarrow> map fst (df_columns df0) | Some cs \<Rightarrow> cs"
  obtain totals0 where ls: "load_series (heap w) t = Inr totals0"
  proof (cases "load_series (heap w) t")
    case (Inl e)
    with assms(3) have "lineplot lib w d t kw = (Inl e, w)" by (simp add: lineplot_load_failure)
    with assms(1) show ?thesis by simp
  next
    case (Inr totals0)
    then show ?thesis by (rule that)
  qed
  from lineplot_Inr [OF assms(1,3) ls] obtain colors where
    r: "render lib kw (if cumulative kw then df_cumsum df0 else df0)
         (if cumulative kw then map_option cumsum totals0 else totals0) ?cats colors = Inr fig"
    by blast
  let ?df = "if cumulative kw then df_cumsum df0 else df0"
  from render_Inr [OF r] assms(2) obtain drawn_c drawn_t where
    dc: "draw_categories kw (df_index ?df) ?df colors ?cats = Inr drawn_c" and
    dt: "draw_totals kw (df_index ?df)
           (if cumulative kw then map_option cumsum totals0 else totals0) = Inr drawn_t" and
    lg: "ax_legend fig = Some (ax_legend_call (drawn_c @ drawn_t) (legend_x kw, legend_y kw)
           (legend_loc kw) 1 (legend_fontsize lib * legend_scale kw) (length ?cats div 4 + 1))"
    by auto
  let ?lg = "ax_legend_call (drawn_c @ drawn_t) (legend_x kw, legend_y kw)
           (legend_loc kw) 1 (legend_fontsize lib * legend_scale kw) (length ?cats div 4 + 1)"
  have "length (legend_labels (drawn_c @ drawn_t)) \<le> length ?cats + 1"
    using draw_categories_Inr [OF dc] draw_totals_legend [OF dt]
    by (simp add: legend_labels_append)
  also have "\<dots> \<le> 4 * (length ?cats div 4 + 1)" by presburger
  finally have n: "length (legend_labels (drawn_c @ drawn_t)) \<le> 4 * (length ?cats div 4 + 1)" .
  have "length col \<le> 4" if "col \<in> set (legend_columns ?lg)" for col
  proof -
    from that have "col \<in> set (array_split (legend_labels (drawn_c @ drawn_t))
        (length ?cats div 4 + 1))"
      by (simp add: ax_legend_call_def)
    with n show ?thesis by (intro array_split_bound [of "length ?cats div 4 + 1"]) simp_all
  qed
  moreover have "ncol ?lg = length ?cats div 4 + 1" by (simp add: ax_legend_call_def)
  ultimately show ?thesis using lg by blast
qed

theorem lineplot_legend_columns_witness:
  "\<exists>fig w' lg. lineplot example_mpl example_world 0 (Some 1)
       (example_kw\<lparr>categories := Some [''A'', ''B'', ''A'', ''B'']\<rparr>) = (Inr fig, w') \<and>
     ax_legend fig = Some lg \<and> ncol lg = 2 \<and>
     legend_columns lg = [[''A'', ''B'', ''A''], [''B'', ''Total'']]"
proof -
  let ?kw = "example_kw\<lparr>categories := Some [''A'', ''B'', ''A'', ''B'']\<rparr>"
  from example_legend_returns obtain fig w' where
    run: "lineplot example_mpl example_world 0 (Some 1) ?kw = (Inr fig, w')"
    by (rule Inr_from_not_isl)
  have il: "include_legend ?kw" by (simp add: example_kw_def default_kw_def)
  from lineplot_legend_columns [OF run il example_loads(1)] obtain lg where
    lg: "ax_legend fig = Some lg" and
    n: "ncol lg = length (case categories ?kw of None \<Rightarrow> map fst (df_columns example_frame)
                          | Some cs \<Rightarrow> cs) div 4 + 1"
    by blast
  from n have n2: "ncol lg = 2" by simp
  from example_legend_columns run lg
  have "legend_columns lg = [[''A'', ''B'', ''A''], [''B'', ''Total'']]" by simp
  with run lg n2 show ?thesis by blast
qed



end
